theory Spec2Isabelle
  imports Main "HOL-Library.AList"
begin

section \<open>Data model\<close>

text \<open>
  The source file \<^verbatim>\<open>src/js/ui.js\<close> holds two versions of the widget toolkit: the
  original one (lines 1-169) and the hardened one (lines 170-369), which guards the
  anchor in \<^verbatim>\<open>initComponent\<close>, reports to Rollbar, passes the typed username on and
  lets the banner load its content. Functions that differ take the version as an argument.
\<close>

datatype variant = Original | Hardened

text \<open>
  JavaScript objects are shared and mutated in place: the registry, the page's variables
  and the event listeners all hold references to the same component objects, and the
  components hold references to DOM elements. Both are modelled by stores indexed with
  addresses. A reference that may be \<^verbatim>\<open>null\<close> or \<^verbatim>\<open>undefined\<close> is an option; reading a
  property of \<^verbatim>\<open>null\<close> or \<^verbatim>\<open>undefined\<close> throws a \<^verbatim>\<open>TypeError\<close>.
\<close>

type_synonym ref = nat
type_synonym node = nat

text \<open>\<^verbatim>\<open>componentId\<close> is \<^verbatim>\<open>null\<close> in the prototype and a number once \<^verbatim>\<open>initComponent\<close> ran.\<close>

type_synonym cid = "nat option"

datatype error = TypeError | SyntaxError

datatype outcome = Returned | Threw error

text \<open>What the code reads and writes of a DOM element: its class list, its text, its value.\<close>

record element =
  classList :: "string list"
  textContent :: string
  input_value :: string

text \<open>
  The notification payloads are the object literals \<^verbatim>\<open>{username, loggedIn: true}\<close> and
  \<^verbatim>\<open>{loggingOut: true}\<close>; a field that is absent reads as \<^verbatim>\<open>undefined\<close>, which is falsy.
\<close>

record payload =
  username :: "string option"
  loggedIn :: bool
  loggingOut :: bool

text \<open>
  \<^verbatim>\<open>createUIComponent\<close> builds an object whose prototype is \<^verbatim>\<open>uiComponent\<close> and copies
  the methods of one of \<^verbatim>\<open>navComponent\<close>, \<^verbatim>\<open>loginComponent\<close>, \<^verbatim>\<open>bannerComponent\<close> into
  it, or none for an unknown name. The role records which methods the object has.
  The original banner calls its headline field \<^verbatim>\<open>headline\<close>, the hardened one
  \<^verbatim>\<open>headlineElem\<close>; the model has one field for both.
\<close>

datatype role = Base | Nav | Login | Banner

datatype notifier = UiSubscriber

record component =
  role :: role
  componentId :: cid
  elem :: "node option"
  componentNotifier :: "notifier option"
  formElem :: "node option"
  welcomeElem :: "node option"
  loginLinkElem :: "node option"
  headlineElem :: "node option"
  contentElem :: "node option"
  btnElem :: "node option"

text \<open>
  \<^verbatim>\<open>uiSubscriber.components\<close> is a plain object used as a table: its own properties in
  creation order, the key being the component's identifier. The property name is the
  identifier converted to a string, which is one-to-one on numbers and \<^verbatim>\<open>null\<close>, so the
  identifier itself is the key. A property can be present and hold \<^verbatim>\<open>undefined\<close>.
\<close>

datatype slot = Undefined | Obj ref

type_synonym registry = "(cid \<times> slot) list"

text \<open>The closures that the \<^verbatim>\<open>init\<close> methods hand to \<^verbatim>\<open>addEventListener\<close>.\<close>

datatype callback = LoginSubmit ref | NavClick ref | BannerClick ref

text \<open>
  The state is the registry, the two stores, the document (what \<^verbatim>\<open>querySelector\<close>
  answers on the document and on an element), the listeners added to elements, the calls
  of \<^verbatim>\<open>console.log\<close> and of \<^verbatim>\<open>Rollbar.error\<close>, and \<open>listen_calls\<close>, the record of
  every invocation of a component's \<^verbatim>\<open>listen\<close> with the component and the payload.
  \<open>unhandled\<close> holds the rejections of promises that no handler takes: the host is
  told of each, a browser fires \<^verbatim>\<open>unhandledrejection\<close> and prints the error as
  uncaught.
\<close>

record state =
  components :: registry
  objs :: "ref \<Rightarrow> component"
  allocated :: nat
  elements :: "node \<Rightarrow> element"
  document :: "string \<Rightarrow> node option"
  query :: "node \<Rightarrow> string \<Rightarrow> node option"
  listeners :: "(node \<times> string \<times> callback) list"
  console :: "payload list"
  rollbar :: "(string \<times> string option) list"
  listen_calls :: "(ref \<times> payload) list"
  unhandled :: "error list"

section \<open>Sequencing statements that may throw\<close>

text \<open>A statement is a state transformer with an outcome; an exception skips what follows.\<close>

type_synonym stmt = "state \<Rightarrow> outcome \<times> state"

definition seq :: "stmt \<Rightarrow> stmt \<Rightarrow> stmt" where
  "seq f g st = (case f st of (Returned, st') \<Rightarrow> g st' | (Threw e, st') \<Rightarrow> (Threw e, st'))"

definition skip :: stmt where
  "skip st = (Returned, st)"

section \<open>DOM operations\<close>

definition add_token :: "string \<Rightarrow> string list \<Rightarrow> string list" where
  "add_token t ts = (if t \<in> set ts then ts else ts @ [t])"

definition remove_token :: "string \<Rightarrow> string list \<Rightarrow> string list" where
  "remove_token t ts = removeAll t ts"

definition update_element :: "node \<Rightarrow> (element \<Rightarrow> element) \<Rightarrow> state \<Rightarrow> state" where
  "update_element n f st = st\<lparr>elements := (elements st)(n := f (elements st n))\<rparr>"

text \<open>\<^verbatim>\<open>e.classList.add(t)\<close>, \<^verbatim>\<open>e.classList.remove(t)\<close> and \<^verbatim>\<open>e.textContent = s\<close>.\<close>

definition classList_add :: "node option \<Rightarrow> string \<Rightarrow> stmt" where
  "classList_add e t st =
     (case e of
        None \<Rightarrow> (Threw TypeError, st)
      | Some n \<Rightarrow> (Returned, update_element n (\<lambda>x. x\<lparr>classList := add_token t (classList x)\<rparr>) st))"

definition classList_remove :: "node option \<Rightarrow> string \<Rightarrow> stmt" where
  "classList_remove e t st =
     (case e of
        None \<Rightarrow> (Threw TypeError, st)
      | Some n \<Rightarrow> (Returned, update_element n (\<lambda>x. x\<lparr>classList := remove_token t (classList x)\<rparr>) st))"

definition set_textContent :: "node option \<Rightarrow> string \<Rightarrow> stmt" where
  "set_textContent e s st =
     (case e of
        None \<Rightarrow> (Threw TypeError, st)
      | Some n \<Rightarrow> (Returned, update_element n (\<lambda>x. x\<lparr>textContent := s\<rparr>) st))"

text \<open>An element is hidden when its class list has \<^verbatim>\<open>d-none\<close>.\<close>

definition hidden :: "state \<Rightarrow> node \<Rightarrow> bool" where
  "hidden st n = (''d-none'' \<in> set (classList (elements st n)))"

section \<open>The registry: \<^verbatim>\<open>uiSubscriber\<close>\<close>

text \<open>
  \<^verbatim>\<open>this.components[id]\<close>: the slot of a property, \<open>None\<close> when the object has no such
  property. Both an absent property and one holding \<^verbatim>\<open>undefined\<close> are falsy.
\<close>

definition lookup :: "registry \<Rightarrow> cid \<Rightarrow> slot option" where
  "lookup r k = map_of r k"

definition truthy :: "slot option \<Rightarrow> bool" where
  "truthy s = (case s of Some (Obj _) \<Rightarrow> True | _ \<Rightarrow> False)"

text \<open>
  \<^verbatim>\<open>this.components[id] = v\<close> overwrites the property where it stands, or creates it
  after the others.
\<close>

definition assign :: "cid \<Rightarrow> slot \<Rightarrow> registry \<Rightarrow> registry" where
  "assign k v r = AList.update k v r"

definition subscribe :: "ref \<Rightarrow> state \<Rightarrow> state" where
  "subscribe c st =
     (let k = componentId (objs st c) in
      if \<not> truthy (lookup (components st) k)
      then st\<lparr>components := assign k (Obj c) (components st)\<rparr>
      else st)"

definition unsubscribe :: "ref \<Rightarrow> state \<Rightarrow> state" where
  "unsubscribe c st =
     (let k = componentId (objs st c) in
      if truthy (lookup (components st) k)
      then st\<lparr>components := assign k Undefined (components st)\<rparr>
      else st)"

text \<open>
  \<^verbatim>\<open>Object.keys\<close> lists the properties that are array indices (integers below
  \<open>2^32 - 1\<close>) in ascending order, then the others in creation order.
\<close>

definition array_index :: "cid \<Rightarrow> bool" where
  "array_index k = (case k of None \<Rightarrow> False | Some n \<Rightarrow> n < 4294967295)"

definition object_keys :: "registry \<Rightarrow> cid list" where
  "object_keys r =
     (let ks = map fst r
      in sort_key the (filter array_index ks) @ filter (\<lambda>k. \<not> array_index k) ks)"

section \<open>The handlers of notifications\<close>

definition showLogoutLink :: "ref \<Rightarrow> stmt" where
  "showLogoutLink c st = classList_remove (loginLinkElem (objs st c)) ''d-none'' st"

definition hideLogoutLink :: "ref \<Rightarrow> stmt" where
  "hideLogoutLink c st = classList_add (loginLinkElem (objs st c)) ''d-none'' st"

definition logout :: "ref \<Rightarrow> stmt" where
  "logout c =
     seq (\<lambda>st. classList_add (welcomeElem (objs st c)) ''d-none'' st)
    (seq (\<lambda>st. set_textContent (welcomeElem (objs st c)) [] st)
         (\<lambda>st. classList_remove (formElem (objs st c)) ''d-none'' st))"

text \<open>\<^verbatim>\<open>uiComponent.listen\<close>: \<^verbatim>\<open>console.log('Notification fired: ', data)\<close>.\<close>

definition uiComponent_listen :: "ref \<Rightarrow> payload \<Rightarrow> stmt" where
  "uiComponent_listen c d st = (Returned, st\<lparr>console := console st @ [d]\<rparr>)"

definition loginComponent_listen :: "ref \<Rightarrow> payload \<Rightarrow> stmt" where
  "loginComponent_listen c d st = (if loggingOut d then logout c st else (Returned, st))"

definition navComponent_listen :: "ref \<Rightarrow> payload \<Rightarrow> stmt" where
  "navComponent_listen c d st = (if loggedIn d then showLogoutLink c st else (Returned, st))"

text \<open>\<^verbatim>\<open>data.username ? 'Hello ' + data.username : 'Hello world!'\<close>: the empty string is falsy.\<close>

definition greeting :: "payload \<Rightarrow> string" where
  "greeting d =
     (case username d of
        None \<Rightarrow> ''Hello world!''
      | Some u \<Rightarrow> if u \<noteq> [] then ''Hello '' @ u else ''Hello world!'')"

definition bannerComponent_listen :: "ref \<Rightarrow> payload \<Rightarrow> stmt" where
  "bannerComponent_listen c d st = set_textContent (headlineElem (objs st c)) (greeting d) st"

text \<open>
  \<^verbatim>\<open>component.listen(data)\<close>: the method the object got from its role, or the
  prototype's. The call is recorded in \<open>listen_calls\<close> before the body runs.
\<close>

definition listen :: "ref \<Rightarrow> payload \<Rightarrow> stmt" where
  "listen c d st =
     (let st1 = st\<lparr>listen_calls := listen_calls st @ [(c, d)]\<rparr>
      in case role (objs st1 c) of
           Base \<Rightarrow> uiComponent_listen c d st1
         | Nav \<Rightarrow> navComponent_listen c d st1
         | Login \<Rightarrow> loginComponent_listen c d st1
         | Banner \<Rightarrow> bannerComponent_listen c d st1)"

section \<open>Broadcast\<close>

text \<open>
  The loop \<^verbatim>\<open>while (len--)\<close> walks the keys taken at the start from the last to the
  first. Each round reads the property again; when it holds \<^verbatim>\<open>undefined\<close>, reading
  \<^verbatim>\<open>component.componentId\<close> throws.
\<close>

fun broadcast_loop :: "cid \<Rightarrow> payload \<Rightarrow> cid list \<Rightarrow> stmt" where
  "broadcast_loop sid d [] st = (Returned, st)"
| "broadcast_loop sid d (k # ks) st =
     (case lookup (components st) k of
        Some (Obj c) \<Rightarrow>
          if sid \<noteq> componentId (objs st c)
          then (case listen c d st of
                  (Returned, st') \<Rightarrow> broadcast_loop sid d ks st'
                | (Threw e, st') \<Rightarrow> (Threw e, st'))
          else broadcast_loop sid d ks st
      | _ \<Rightarrow> (Threw TypeError, st))"

definition broadcast :: "cid \<Rightarrow> payload \<Rightarrow> stmt" where
  "broadcast sid d st = broadcast_loop sid d (rev (object_keys (components st))) st"

text \<open>\<^verbatim>\<open>this.componentNotifier.broadcast(this.componentId, data)\<close>.\<close>

definition notify :: "ref \<Rightarrow> payload \<Rightarrow> stmt" where
  "notify c d st =
     (case componentNotifier (objs st c) of
        None \<Rightarrow> (Threw TypeError, st)
      | Some UiSubscriber \<Rightarrow> broadcast (componentId (objs st c)) d st)"

section \<open>Observing a broadcast\<close>

text \<open>The calls of \<^verbatim>\<open>listen\<close> made on the way from one state to a later one.\<close>

definition notified :: "state \<Rightarrow> state \<Rightarrow> (ref \<times> payload) list" where
  "notified st st' = drop (length (listen_calls st)) (listen_calls st')"

text \<open>The keys that a broadcast visits before it comes to the key \<open>k\<close>.\<close>

definition visited_before :: "cid \<Rightarrow> state \<Rightarrow> cid list" where
  "visited_before k st = takeWhile (\<lambda>k'. k' \<noteq> k) (rev (object_keys (components st)))"

text \<open>The elements that a component's \<^verbatim>\<open>listen\<close> writes to when it gets the payload \<open>d\<close>.\<close>

definition writes :: "component \<Rightarrow> payload \<Rightarrow> node set" where
  "writes x d =
     (case role x of
        Base \<Rightarrow> {}
      | Nav \<Rightarrow> if loggedIn d then set_option (loginLinkElem x) else {}
      | Login \<Rightarrow> if loggingOut d then set_option (welcomeElem x) \<union> set_option (formElem x) else {}
      | Banner \<Rightarrow> set_option (headlineElem x))"

text \<open>The login box shows its form again: the form is not hidden, the welcome region is hidden and empty.\<close>

definition restored :: "state \<Rightarrow> node \<Rightarrow> node \<Rightarrow> bool" where
  "restored st fm w = (\<not> hidden st fm \<and> hidden st w \<and> textContent (elements st w) = [])"

section \<open>Generating an identifier\<close>

text \<open>
  \<^verbatim>\<open>Math.floor(Math.random() * (9999 - 1000 + 1)) + 1000\<close> is computed on doubles. A finite
  double that is not negative is \<open>m * 2^e\<close> with \<open>m < 2^53\<close> and \<open>e \<ge> -1074\<close>,
  so it is a whole number of units of \<open>2^-1074\<close>; the model writes a value as that
  number of units. A number of units is a double when it has at most 53 significant bits.
  The product of two doubles is the exact product rounded to the nearest double, ties to
  the one with an even significand.
\<close>

fun bit_length :: "nat \<Rightarrow> nat" where
  "bit_length n = (if n = 0 then 0 else Suc (bit_length (n div 2)))"

declare bit_length.simps [simp del]

definition representable :: "nat \<Rightarrow> bool" where
  "representable n = (n mod 2 ^ (bit_length n - 53) = 0)"

definition round_double :: "nat \<Rightarrow> nat" where
  "round_double n =
     (let s = bit_length n - 53; q = n div 2 ^ s; r = n mod 2 ^ s
      in (if 2 ^ s < 2 * r \<or> (2 ^ s = 2 * r \<and> odd q) then q + 1 else q) * 2 ^ s)"

text \<open>\<^verbatim>\<open>Math.random()\<close> answers a double that is at least 0 and less than 1.\<close>

definition random_value :: "nat \<Rightarrow> bool" where
  "random_value rnd = (representable rnd \<and> rnd < 2 ^ 1074)"

text \<open>
  The factor \<open>9999 - 1000 + 1\<close> is a whole number, so the exact product is
  \<open>rnd * 9000\<close> units; \<^verbatim>\<open>Math.floor\<close> of a value is its number of units divided by
  \<open>2^1074\<close>; adding 1000 to a whole number this small is exact.
\<close>

definition random_id :: "nat \<Rightarrow> nat" where
  "random_id rnd = round_double (rnd * (9999 - 1000 + 1)) div 2 ^ 1074 + 1000"

section \<open>Component lifecycle\<close>

definition update_component :: "ref \<Rightarrow> (component \<Rightarrow> component) \<Rightarrow> state \<Rightarrow> state" where
  "update_component c f st = st\<lparr>objs := (objs st)(c := f (objs st c))\<rparr>"

text \<open>
  \<^verbatim>\<open>initComponent\<close>. The hardened version throws a string when the anchor is falsy and
  catches it at once: it calls \<^verbatim>\<open>Rollbar.error\<close> with the fixed text and \<^verbatim>\<open>e.message\<close>,
  which is \<^verbatim>\<open>undefined\<close> for a string, and returns. Nothing else in the \<^verbatim>\<open>try\<close>
  block throws, so the method always returns. \<open>rnd\<close> is what \<^verbatim>\<open>Math.random()\<close> answers.
\<close>

definition initComponent :: "variant \<Rightarrow> ref \<Rightarrow> node option \<Rightarrow> nat \<Rightarrow> stmt" where
  "initComponent v c anchor rnd st =
     (if v = Hardened \<and> anchor = None
      then (Returned,
            st\<lparr>rollbar := rollbar st @ [(''Error uiComponents.initComponent: '', None)]\<rparr>)
      else
        (Returned,
         subscribe c
           (update_component c (\<lambda>x. x\<lparr>componentNotifier := Some UiSubscriber\<rparr>)
           (update_component c (\<lambda>x. x\<lparr>componentId := Some (random_id rnd)\<rparr>)
           (update_component c (\<lambda>x. x\<lparr>elem := anchor\<rparr>) st)))))"

definition addEventListener :: "node option \<Rightarrow> string \<Rightarrow> callback \<Rightarrow> stmt" where
  "addEventListener e ev cb st =
     (case e of
        None \<Rightarrow> (Threw TypeError, st)
      | Some n \<Rightarrow> (Returned, st\<lparr>listeners := listeners st @ [(n, ev, cb)]\<rparr>))"

text \<open>\<^verbatim>\<open>this.f = this.elem.querySelector(sel)\<close>, which throws when \<^verbatim>\<open>this.elem\<close> is null.\<close>

definition bind_query :: "ref \<Rightarrow> string \<Rightarrow> (node option \<Rightarrow> component \<Rightarrow> component) \<Rightarrow> stmt" where
  "bind_query c sel put st =
     (case elem (objs st c) of
        None \<Rightarrow> (Threw TypeError, st)
      | Some a \<Rightarrow> (Returned, update_component c (put (query st a sel)) st))"

definition uiComponent_init :: "variant \<Rightarrow> ref \<Rightarrow> node option \<Rightarrow> nat \<Rightarrow> stmt" where
  "uiComponent_init v c anchor rnd = initComponent v c anchor rnd"

definition loginComponent_init :: "variant \<Rightarrow> ref \<Rightarrow> node option \<Rightarrow> nat \<Rightarrow> stmt" where
  "loginComponent_init v c anchor rnd =
     seq (initComponent v c anchor rnd)
    (seq (bind_query c ''form'' (\<lambda>n x. x\<lparr>formElem := n\<rparr>))
    (seq (bind_query c ''#welcome'' (\<lambda>n x. x\<lparr>welcomeElem := n\<rparr>))
         (\<lambda>st. addEventListener (formElem (objs st c)) ''submit'' (LoginSubmit c) st)))"

definition navComponent_init :: "variant \<Rightarrow> ref \<Rightarrow> node option \<Rightarrow> nat \<Rightarrow> stmt" where
  "navComponent_init v c anchor rnd =
     seq (initComponent v c anchor rnd)
    (seq (bind_query c ''#logout-link'' (\<lambda>n x. x\<lparr>loginLinkElem := n\<rparr>))
         (\<lambda>st. addEventListener (loginLinkElem (objs st c)) ''click'' (NavClick c) st))"

text \<open>The original banner binds its headline only; the hardened one also its content and button.\<close>

definition bannerComponent_init :: "variant \<Rightarrow> ref \<Rightarrow> node option \<Rightarrow> nat \<Rightarrow> stmt" where
  "bannerComponent_init v c anchor rnd =
     seq (initComponent v c anchor rnd)
    (seq (bind_query c ''h1'' (\<lambda>n x. x\<lparr>headlineElem := n\<rparr>))
         (case v of
            Original \<Rightarrow> skip
          | Hardened \<Rightarrow>
              seq (bind_query c ''#content'' (\<lambda>n x. x\<lparr>contentElem := n\<rparr>))
             (seq (bind_query c ''#learn-more'' (\<lambda>n x. x\<lparr>btnElem := n\<rparr>))
                  (\<lambda>st. addEventListener (btnElem (objs st c)) ''click'' (BannerClick c) st))))"

text \<open>\<^verbatim>\<open>component.init(elem)\<close>: the role's method, or the prototype's.\<close>

definition init :: "variant \<Rightarrow> ref \<Rightarrow> node option \<Rightarrow> nat \<Rightarrow> stmt" where
  "init v c anchor rnd st =
     (case role (objs st c) of
        Base \<Rightarrow> uiComponent_init v c anchor rnd st
      | Nav \<Rightarrow> navComponent_init v c anchor rnd st
      | Login \<Rightarrow> loginComponent_init v c anchor rnd st
      | Banner \<Rightarrow> bannerComponent_init v c anchor rnd st)"

section \<open>The listeners of the page's events\<close>

text \<open>
  \<^verbatim>\<open>loginComponent.login\<close>, which the form's submit listener calls. The original
  version sends the fixed name \<^verbatim>\<open>'Zakir'\<close>, the hardened one the name typed.
\<close>

definition login_payload :: "variant \<Rightarrow> string \<Rightarrow> payload" where
  "login_payload v u =
     \<lparr>username = Some (case v of Original \<Rightarrow> ''Zakir'' | Hardened \<Rightarrow> u),
      loggedIn = True, loggingOut = False\<rparr>"

definition login :: "variant \<Rightarrow> ref \<Rightarrow> stmt" where
  "login v c st =
     (case elem (objs st c) of
        None \<Rightarrow> (Threw TypeError, st)
      | Some a \<Rightarrow>
         (case query st a ''#username'' of
            None \<Rightarrow> (Threw TypeError, st)
          | Some f \<Rightarrow>
             (let u = input_value (elements st f)
              in if u \<noteq> []
                 then seq (notify c (login_payload v u))
                     (seq (\<lambda>s. classList_remove (welcomeElem (objs s c)) ''d-none'' s)
                     (seq (\<lambda>s. set_textContent (welcomeElem (objs s c)) (''Welcome '' @ u) s)
                          (\<lambda>s. classList_add (formElem (objs s c)) ''d-none'' s))) st
                 else (Returned, st))))"

text \<open>The click listener of the logout link, added by \<^verbatim>\<open>navComponent.init\<close>.\<close>

definition logout_payload :: payload where
  "logout_payload = \<lparr>username = None, loggedIn = False, loggingOut = True\<rparr>"

definition logout_click :: "ref \<Rightarrow> stmt" where
  "logout_click c = seq (notify c logout_payload) (hideLogoutLink c)"

section \<open>Loading the banner's content\<close>

text \<open>
  Modelled from the spec: the resource \<^verbatim>\<open>../post.json\<close> is not among the sources;
  section 6 of the specification gives it the fields \<^verbatim>\<open>headline\<close> and \<^verbatim>\<open>content\<close>.
\<close>

record post =
  headline :: string
  content :: string

text \<open>
  What \<^verbatim>\<open>fetch\<close> settles with: a rejection, or a response with its \<^verbatim>\<open>ok\<close> flag and
  what \<^verbatim>\<open>res.json()\<close> gives, \<open>None\<close> when the body does not parse.
\<close>

datatype fetched = Failed | Response bool "post option"

datatype settled = Fulfilled | Rejected error

text \<open>
  A promise once it has settled: fulfilled with a value, or rejected with an error. The
  values that pass between the callbacks are a response, \<^verbatim>\<open>undefined\<close> and the parsed
  document.
\<close>

datatype 'a promise = FulfilledWith 'a | RejectedWith error

datatype response = Res bool "post option"

datatype passed = Undef | Data post

text \<open>
  \<^verbatim>\<open>p.then(f)\<close>: a rejection of \<open>p\<close> passes to the new promise and \<open>f\<close> does not
  run. Otherwise \<open>f\<close> runs on the value, and the new promise takes what \<open>f\<close> answers:
  the value it returns, the settlement of a promise it returns, or a rejection with what
  it throws.
\<close>

definition promise_then :: "'a promise \<Rightarrow> ('a \<Rightarrow> state \<Rightarrow> 'b promise \<times> state)
    \<Rightarrow> state \<Rightarrow> 'b promise \<times> state" where
  "promise_then p f st =
     (case p of
        RejectedWith e \<Rightarrow> (RejectedWith e, st)
      | FulfilledWith x \<Rightarrow> f x st)"

text \<open>\<^verbatim>\<open>fetch('../post.json')\<close>: a network failure rejects with a \<^verbatim>\<open>TypeError\<close>.\<close>

definition fetch :: "fetched \<Rightarrow> response promise" where
  "fetch res =
     (case res of
        Failed \<Rightarrow> RejectedWith TypeError
      | Response ok' body \<Rightarrow> FulfilledWith (Res ok' body))"

text \<open>\<^verbatim>\<open>res.json()\<close>: a body that does not parse rejects with a \<^verbatim>\<open>SyntaxError\<close>.\<close>

definition json :: "response \<Rightarrow> passed promise" where
  "json res =
     (case res of
        Res _ None \<Rightarrow> RejectedWith SyntaxError
      | Res _ (Some data) \<Rightarrow> FulfilledWith (Data data))"

definition ok :: "response \<Rightarrow> bool" where
  "ok res = (case res of Res b _ \<Rightarrow> b)"

text \<open>
  The first callback, \<^verbatim>\<open>res => { if (res.ok) { return res.json(); } }\<close>: without a
  \<^verbatim>\<open>return\<close> it answers \<^verbatim>\<open>undefined\<close>.
\<close>

definition on_response :: "response \<Rightarrow> state \<Rightarrow> passed promise \<times> state" where
  "on_response res st = (if ok res then (json res, st) else (FulfilledWith Undef, st))"

text \<open>
  The second callback, which assigns \<^verbatim>\<open>data.headline\<close> and \<^verbatim>\<open>data.content\<close> to the two
  texts. Reading \<^verbatim>\<open>data.headline\<close> throws when \<^verbatim>\<open>data\<close> is \<^verbatim>\<open>undefined\<close>.
\<close>

definition on_data :: "ref \<Rightarrow> passed \<Rightarrow> state \<Rightarrow> passed promise \<times> state" where
  "on_data c data st =
     (case data of
        Undef \<Rightarrow> (RejectedWith TypeError, st)
      | Data d \<Rightarrow>
         (case seq (\<lambda>s. set_textContent (headlineElem (objs s c)) (headline d) s)
                   (\<lambda>s. set_textContent (contentElem (objs s c)) (content d) s) st of
            (Returned, st') \<Rightarrow> (FulfilledWith Undef, st')
          | (Threw e, st') \<Rightarrow> (RejectedWith e, st')))"

text \<open>
  A promise that nothing is attached to, as the one that the second \<^verbatim>\<open>then\<close> answers:
  when it is rejected, no handler takes the error and the host is told.
\<close>

definition dropped :: "'a promise \<Rightarrow> state \<Rightarrow> settled \<times> state" where
  "dropped p st =
     (case p of
        FulfilledWith _ \<Rightarrow> (Fulfilled, st)
      | RejectedWith e \<Rightarrow> (Rejected e, st\<lparr>unhandled := unhandled st @ [e]\<rparr>))"

text \<open>
  \<^verbatim>\<open>bannerComponent.loadContent\<close> of the hardened version:
  \<^verbatim>\<open>let result = fetch('../post.json').then(...); result.then(...)\<close>. The call itself
  returns at once; the result is the state once the promises have settled and how the
  last promise, which the code drops, settled.
\<close>

definition loadContent :: "ref \<Rightarrow> fetched \<Rightarrow> state \<Rightarrow> settled \<times> state" where
  "loadContent c res st =
     (case promise_then (fetch res) on_response st of
        (result, st1) \<Rightarrow>
          (case promise_then result (on_data c) st1 of
             (final, st2) \<Rightarrow> dropped final st2))"

section \<open>The factory\<close>

definition prototype :: component where
  "prototype =
     \<lparr>role = Base, componentId = None, elem = None, componentNotifier = None,
      formElem = None, welcomeElem = None, loginLinkElem = None,
      headlineElem = None, contentElem = None, btnElem = None\<rparr>"

definition role_of :: "string \<Rightarrow> role" where
  "role_of name =
     (if name = ''nav'' then Nav
      else if name = ''login'' then Login
      else if name = ''banner'' then Banner
      else Base)"

definition anchor_of :: "role \<Rightarrow> state \<Rightarrow> node option" where
  "anchor_of r st =
     (case r of
        Nav \<Rightarrow> document st ''#main-nav''
      | Login \<Rightarrow> document st ''#login-box''
      | Banner \<Rightarrow> document st ''#banner''
      | Base \<Rightarrow> None)"

text \<open>The new object is at the address \<open>allocated st\<close>.\<close>

definition createUIComponent :: "variant \<Rightarrow> string \<Rightarrow> nat \<Rightarrow> stmt" where
  "createUIComponent v name rnd st =
     (let c = allocated st;
          st1 = st\<lparr>objs := (objs st)(c := prototype\<lparr>role := role_of name\<rparr>),
                   allocated := Suc c\<rparr>
      in init v c (anchor_of (role_of name) st1) rnd st1)"

text \<open>
  The three statements that end the original file create the navigation, the login box
  and the banner in this order; an exception in one stops the script. The hardened file
  leaves these calls to the page; the model runs the same three for either version. The
  arguments are what \<^verbatim>\<open>Math.random()\<close> answers in the three calls.
\<close>

definition page_script :: "variant \<Rightarrow> nat \<Rightarrow> nat \<Rightarrow> nat \<Rightarrow> stmt" where
  "page_script v r1 r2 r3 =
     seq (createUIComponent v ''nav'' r1)
    (seq (createUIComponent v ''login'' r2)
         (createUIComponent v ''banner'' r3))"

section \<open>A sample page\<close>

text \<open>
  A page to run the code on: the navigation bar (element 0) with its logout link (1),
  the login box (2) with its form (3), welcome region (4) and username field (5), and the
  banner (6) with its content region (8), its button (9) and, when \<open>h1\<close> holds, its
  headline (7). The logout link and the welcome region start hidden; the user has typed
  a name.
\<close>

definition blank :: element where
  "blank = \<lparr>classList = [], textContent = [], input_value = []\<rparr>"

definition page_query :: "bool \<Rightarrow> node \<Rightarrow> string \<Rightarrow> node option" where
  "page_query h1 n sel =
     (if n = 0 \<and> sel = ''#logout-link'' then Some 1
      else if n = 2 \<and> sel = ''form'' then Some 3
      else if n = 2 \<and> sel = ''#welcome'' then Some 4
      else if n = 2 \<and> sel = ''#username'' then Some 5
      else if n = 6 \<and> sel = ''h1'' \<and> h1 then Some 7
      else if n = 6 \<and> sel = ''#content'' then Some 8
      else if n = 6 \<and> sel = ''#learn-more'' then Some 9
      else None)"

definition page_document :: "string \<Rightarrow> node option" where
  "page_document sel =
     (if sel = ''#main-nav'' then Some 0
      else if sel = ''#login-box'' then Some 2
      else if sel = ''#banner'' then Some 6
      else None)"

definition page :: "bool \<Rightarrow> state" where
  "page h1 =
     \<lparr>components = [], objs = (\<lambda>_. prototype), allocated = 0,
      elements = (\<lambda>_. blank)
        (1 := blank\<lparr>classList := [''d-none'']\<rparr>,
         4 := blank\<lparr>classList := [''d-none'']\<rparr>,
         5 := blank\<lparr>input_value := ''Ann''\<rparr>),
      document = page_document, query = page_query h1,
      listeners = [], console = [], rollbar = [], listen_calls = [], unhandled = []\<rparr>"

text \<open>Three answers of \<^verbatim>\<open>Math.random()\<close>: 0, a quarter and a half.\<close>

definition draw_zero :: nat where
  "draw_zero = 0"

definition draw_quarter :: nat where
  "draw_quarter = 2 ^ 1072"

definition draw_half :: nat where
  "draw_half = 2 ^ 1073"

text \<open>The page once its script has run, with these three answers.\<close>

definition loaded :: "variant \<Rightarrow> bool \<Rightarrow> state" where
  "loaded v h1 = snd (page_script v draw_zero draw_quarter draw_half (page h1))"

text \<open>The loaded page, hardened, once the user has submitted the login form.\<close>

definition logged_in :: state where
  "logged_in = snd (login Hardened 1 (loaded Hardened True))"

text \<open>
  The page without a headline in its banner, loaded by the original script when the three
  answers of \<^verbatim>\<open>Math.random()\<close> are a quarter, a half and 0: the banner has the
  lowest identifier. Then the same page once the user has submitted the login form.
\<close>

definition low_banner :: state where
  "low_banner = snd (page_script Original draw_quarter draw_half draw_zero (page False))"

definition low_banner_submitted :: state where
  "low_banner_submitted = snd (login Original 1 low_banner)"

text \<open>
  A navigation object as the factory makes it, before \<^verbatim>\<open>init\<close>, on the sample page.
\<close>

definition fresh_nav :: state where
  "fresh_nav = (page True)\<lparr>objs := (objs (page True))(0 := prototype\<lparr>role := Nav\<rparr>),
                            allocated := 1\<rparr>"

text \<open>
  The loaded page with a fourth object that has the identifier 3250 of the login box,
  which is object 1.
\<close>

definition collider :: state where
  "collider = update_component 3 (\<lambda>x. x\<lparr>componentId := Some 3250\<rparr>) (loaded Hardened True)"

section \<open>Properties of the identifier arithmetic\<close>

lemma bit_length_0: "bit_length 0 = 0"
  by (simp add: bit_length.simps)

lemma bit_length_pos: "0 < n \<Longrightarrow> bit_length n = Suc (bit_length (n div 2))"
  by (subst bit_length.simps) simp

lemma bit_length_le: "n < 2 ^ k \<Longrightarrow> bit_length n \<le> k"
proof (induction k arbitrary: n)
  case 0
  then show ?case by (simp add: bit_length_0)
next
  case (Suc k)
  show ?case
  proof (cases "n = 0")
    case True
    then show ?thesis by (simp add: bit_length_0)
  next
    case False
    from Suc.prems have "n div 2 < 2 ^ k" by simp
    then have "bit_length (n div 2) \<le> k" by (rule Suc.IH)
    with False show ?thesis by (simp add: bit_length_pos)
  qed
qed

lemma bit_length_gt: "2 ^ k \<le> n \<Longrightarrow> k < bit_length n"
proof (induction k arbitrary: n)
  case 0
  then show ?case by (simp add: bit_length_pos)
next
  case (Suc k)
  from Suc.prems have "2 ^ k \<le> n div 2" by simp
  then have "k < bit_length (n div 2)" by (rule Suc.IH)
  moreover from Suc.prems have "0 < n"
    by (metis gr0I not_less_eq_eq less_eq_nat.simps(1) power_not_zero zero_neq_numeral le_zero_eq)
  ultimately show ?case by (simp add: bit_length_pos)
qed

text \<open>Rounding never passes a multiple of the unit in the last place.\<close>

lemma round_double_le_multiple:
  assumes "2 ^ (bit_length n - 53) dvd m" and "n \<le> m"
  shows "round_double n \<le> m"
proof -
  define s where "s = bit_length n - 53"
  define q where "q = n div 2 ^ s"
  define r where "r = n mod 2 ^ s"
  from assms(1) obtain j where j: "m = 2 ^ s * j" unfolding s_def by (auto simp: dvd_def)
  have n: "n = q * 2 ^ s + r" unfolding q_def r_def by (rule div_mult_mod_eq[symmetric])
  have rlt: "r < 2 ^ s" unfolding r_def by simp
  have "q \<le> j"
  proof -
    have "q * 2 ^ s \<le> n" using n by simp
    also have "n \<le> j * 2 ^ s" using assms(2) j by (simp add: mult.commute)
    finally show ?thesis by simp
  qed
  show ?thesis
  proof (cases "r = 0")
    case True
    then have "round_double n = q * 2 ^ s"
      unfolding round_double_def Let_def s_def[symmetric] q_def[symmetric] r_def[symmetric]
      by simp
    with n True assms(2) show ?thesis by simp
  next
    case False
    have "q \<noteq> j"
    proof
      assume "q = j"
      with n j have "n = m + r" by (simp add: mult.commute)
      with False assms(2) show False by simp
    qed
    with \<open>q \<le> j\<close> have "q + 1 \<le> j" by simp
    then have "(q + 1) * 2 ^ s \<le> j * 2 ^ s" by (rule mult_le_mono1)
    moreover have "round_double n \<le> (q + 1) * 2 ^ s"
      unfolding round_double_def Let_def s_def[symmetric] q_def[symmetric] r_def[symmetric]
      by simp
    ultimately show ?thesis using j by (simp add: mult.commute)
  qed
qed

lemma round_double_down:
  assumes "2 * (n mod 2 ^ (bit_length n - 53)) < 2 ^ (bit_length n - 53)"
  shows "round_double n \<le> n"
proof -
  have "round_double n = n div 2 ^ (bit_length n - 53) * 2 ^ (bit_length n - 53)"
    using assms unfolding round_double_def Let_def by simp
  then show ?thesis by simp
qed

lemma round_double_product_bound:
  fixes t N :: nat
  assumes N: "N \<le> 9000 * ((2 ^ 53 - 1) * 2 ^ t)"
  shows "round_double N < 9000 * (2 ^ 53 * 2 ^ t)"
proof -
  define T :: nat where "T = 2 ^ t"
  have Tpos: "0 < T" unfolding T_def by simp
  have N': "N \<le> 81064793292668919000 * T"
    using N unfolding T_def by simp
  have goal': "9000 * (2 ^ 53 * 2 ^ t) = 81064793292668928000 * T"
    unfolding T_def by simp
  have p14: "2 ^ (t + 14) = 16384 * T" unfolding T_def by (simp add: power_add)
  have p66: "2 ^ (t + 66) = 73786976294838206464 * T" unfolding T_def by (simp add: power_add)
  have p67: "2 ^ (t + 67) = 147573952589676412928 * T" unfolding T_def by (simp add: power_add)
  have "N < 2 ^ (t + 67)" using N' Tpos unfolding p67 by simp
  then have bl: "bit_length N \<le> t + 67" by (rule bit_length_le)
  define m :: nat where "m = 4947802324991999 * 2 ^ (t + 14)"
  have m: "m = 81064793292668911616 * T" unfolding m_def p14 by simp
  show ?thesis
  proof (cases "N \<le> m")
    case True
    have "bit_length N - 53 \<le> t + 14" using bl by simp
    then have "(2::nat) ^ (bit_length N - 53) dvd 2 ^ (t + 14)" by (rule le_imp_power_dvd)
    then have "2 ^ (bit_length N - 53) dvd m" unfolding m_def by (rule dvd_mult)
    then have "round_double N \<le> m" using True by (rule round_double_le_multiple)
    then show ?thesis using Tpos unfolding goal' m by simp
  next
    case False
    then have "2 ^ (t + 66) \<le> N" using Tpos unfolding m p66 by simp
    then have "t + 66 < bit_length N" by (rule bit_length_gt)
    with bl have s: "bit_length N - 53 = t + 14" by simp
    have lt: "N - m < 2 ^ (t + 14)" using N' False Tpos unfolding m p14 by simp
    have "N = N - m + 4947802324991999 * 2 ^ (t + 14)" using False unfolding m_def by simp
    then have "N mod 2 ^ (t + 14) = (N - m + 4947802324991999 * 2 ^ (t + 14)) mod 2 ^ (t + 14)"
      by simp
    also have "\<dots> = (N - m) mod 2 ^ (t + 14)" by (rule mod_mult_self1)
    also have "\<dots> = N - m" using lt by (rule mod_less)
    finally have r: "N mod 2 ^ (t + 14) = N - m" .
    have "2 * (N - m) < 2 ^ (t + 14)" using N' False Tpos unfolding m p14 by simp
    then have "2 * (N mod 2 ^ (bit_length N - 53)) < 2 ^ (bit_length N - 53)"
      unfolding s r .
    then have "round_double N \<le> N" by (rule round_double_down)
    then show ?thesis using N' Tpos unfolding goal' by simp
  qed
qed

lemma random_value_le:
  assumes "random_value rnd"
  shows "rnd \<le> (2 ^ 53 - 1) * 2 ^ 1021"
proof (cases "rnd < 2 ^ 1073")
  case True
  have "(2::nat) ^ 1073 = 2 ^ 52 * 2 ^ 1021" by (simp only: power_add[symmetric]) simp
  moreover have "(2::nat) ^ 52 * 2 ^ 1021 \<le> (2 ^ 53 - 1) * 2 ^ 1021"
    by (rule mult_le_mono1) simp
  ultimately show ?thesis using True by simp
next
  case False
  then have "2 ^ 1073 \<le> rnd" by simp
  then have "1073 < bit_length rnd" by (rule bit_length_gt)
  moreover from assms have lt: "rnd < 2 ^ 1074" by (simp add: random_value_def)
  then have "bit_length rnd \<le> 1074" by (rule bit_length_le)
  ultimately have "bit_length rnd - 53 = 1021" by simp
  with assms have "rnd mod 2 ^ 1021 = 0" by (simp add: random_value_def representable_def)
  then obtain j where j: "rnd = 2 ^ 1021 * j" by (auto simp: mod_eq_0_iff_dvd dvd_def)
  have "(2::nat) ^ 1074 = 2 ^ 53 * 2 ^ 1021" by (simp only: power_add[symmetric]) simp
  with lt j have "j * 2 ^ 1021 < 2 ^ 53 * (2::nat) ^ 1021" by (simp add: mult.commute)
  then have "j < 2 ^ 53" by simp
  then have "j \<le> 2 ^ 53 - 1" by simp
  then have "j * (2::nat) ^ 1021 \<le> (2 ^ 53 - 1) * 2 ^ 1021" by (rule mult_le_mono1)
  with j show ?thesis by (simp add: mult.commute)
qed

lemma random_id_range:
  assumes "random_value rnd"
  shows "1000 \<le> random_id rnd \<and> random_id rnd \<le> 9999"
proof -
  have f: "(9999::nat) - 1000 + 1 = 9000" by simp
  have "rnd * 9000 \<le> 9000 * ((2 ^ 53 - 1) * 2 ^ 1021)"
    using random_value_le[OF assms] by (simp only: mult.commute[of rnd] mult_le_mono2)
  then have "round_double (rnd * 9000) < 9000 * (2 ^ 53 * 2 ^ 1021)"
    by (rule round_double_product_bound)
  moreover have "(2::nat) ^ 53 * 2 ^ 1021 = 2 ^ 1074" by (simp only: power_add[symmetric]) simp
  ultimately have "round_double (rnd * 9000) < 9000 * 2 ^ 1074" by (simp only:)
  then have "round_double (rnd * 9000) div 2 ^ 1074 < 9000"
    by (simp only: less_mult_imp_div_less)
  then show ?thesis unfolding random_id_def f by simp
qed

lemma bit_length_shift: "0 < n \<Longrightarrow> bit_length (n * 2 ^ k) = bit_length n + k"
proof (induction k)
  case 0
  then show ?case by simp
next
  case (Suc k)
  have "bit_length (n * 2 ^ Suc k) = bit_length (2 * (n * 2 ^ k))"
    by (simp add: mult.commute mult.left_commute)
  also have "\<dots> = Suc (bit_length (n * 2 ^ k))"
    using Suc.prems by (subst bit_length_pos) simp_all
  finally show ?case using Suc by simp
qed

text \<open>A product that fits in 53 bits is not rounded.\<close>

lemma round_double_exact:
  assumes "0 < n" "bit_length n \<le> 53"
  shows "round_double (n * 2 ^ k) = n * 2 ^ k"
proof -
  define s where "s = bit_length (n * 2 ^ k) - 53"
  have "s \<le> k" using assms by (simp add: s_def bit_length_shift)
  then have "(2::nat) ^ s dvd 2 ^ k" by (rule le_imp_power_dvd)
  then have d: "2 ^ s dvd n * 2 ^ k" by (rule dvd_mult)
  then have m: "(n * 2 ^ k) mod 2 ^ s = 0" by simp
  have "round_double (n * 2 ^ k) = (n * 2 ^ k) div 2 ^ s * 2 ^ s"
    unfolding round_double_def Let_def s_def[symmetric] m by simp
  also have "\<dots> = n * 2 ^ k" using d by (rule dvd_div_mult_self)
  finally show ?thesis .
qed

lemma bit_length_9000: "bit_length 9000 = 14"
  by (simp add: bit_length.simps)

lemma random_value_draw_zero: "random_value draw_zero"
  by (simp add: random_value_def representable_def draw_zero_def bit_length_0)

lemma random_id_draw_zero: "random_id draw_zero = 1000"
  by (simp add: random_id_def round_double_def draw_zero_def bit_length_0)

lemma random_id_power:
  assumes "k \<le> 1074"
  shows "random_id (2 ^ k) = 9000 * 2 ^ k div 2 ^ 1074 + 1000"
proof -
  have f: "(9999::nat) - 1000 + 1 = 9000" by simp
  have "round_double (9000 * 2 ^ k) = 9000 * 2 ^ k"
    by (rule round_double_exact) (simp_all add: bit_length_9000)
  then show ?thesis unfolding random_id_def f by (simp only: mult.commute[of "2 ^ k"])
qed

lemma random_id_draw_quarter: "random_id draw_quarter = 3250"
  unfolding draw_quarter_def by (subst random_id_power) simp_all

lemma random_id_draw_half: "random_id draw_half = 5500"
  unfolding draw_half_def by (subst random_id_power) simp_all

lemmas random_id_draws = random_id_draw_zero random_id_draw_quarter random_id_draw_half

section \<open>The sample page after its script\<close>

lemmas run_defs =
  page_script_def createUIComponent_def init_def uiComponent_init_def
  navComponent_init_def loginComponent_init_def bannerComponent_init_def
  initComponent_def bind_query_def addEventListener_def subscribe_def
  update_component_def seq_def skip_def role_of_def anchor_of_def prototype_def
  lookup_def truthy_def assign_def Let_def
  page_def page_query_def page_document_def

lemma loaded_components:
  "components (loaded v h1) = [(Some 1000, Obj 0), (Some 3250, Obj 1), (Some 5500, Obj 2)]"
  by (cases v; cases h1) (simp_all add: loaded_def run_defs random_id_draws)

section \<open>Subscribing under a taken identifier\<close>

lemma objs_subscribe [simp]: "objs (subscribe c st) = objs st"
  by (simp add: subscribe_def Let_def)

text \<open>
  C4. When the registry holds a component \<open>c1\<close> under the identifier of \<open>c2\<close>,
  \<^verbatim>\<open>subscribe(c2)\<close> changes nothing: the property still holds \<open>c1\<close>, and the whole state
  is the one before the call.
\<close>

theorem subscribe_collision_keeps_first:
  assumes "lookup (components st) (componentId (objs st c2)) = Some (Obj c1)"
  shows "lookup (components (subscribe c2 st)) (componentId (objs st c2)) = Some (Obj c1)
         \<and> subscribe c2 st = st"
  using assms by (simp add: subscribe_def truthy_def)

theorem subscribe_collision_keeps_first_witness:
  "lookup (components collider) (componentId (objs collider 3)) = Some (Obj 1)
   \<and> lookup (components (subscribe 3 collider)) (componentId (objs collider 3)) = Some (Obj 1)
   \<and> subscribe 3 collider = collider"
proof -
  have h: "lookup (components collider) (componentId (objs collider 3)) = Some (Obj 1)"
    by (simp add: collider_def update_component_def loaded_components lookup_def)
  from subscribe_collision_keeps_first[OF h] h show ?thesis by simp
qed

section \<open>The range of generated identifiers\<close>

text \<open>
  C10. Whenever \<^verbatim>\<open>initComponent\<close> generates an identifier, that is in the original
  version and in the hardened one with an anchor, the component's identifier is a whole
  number from 1000 to 9999, whatever double below 1 \<^verbatim>\<open>Math.random()\<close> answers.
\<close>

theorem generated_identifier_in_range:
  assumes "random_value rnd" and "v = Original \<or> anchor \<noteq> None"
  shows "\<exists>i. componentId (objs (snd (initComponent v c anchor rnd st)) c) = Some i
             \<and> 1000 \<le> i \<and> i \<le> 9999"
  using assms(2) random_id_range[OF assms(1)]
  by (auto simp: initComponent_def update_component_def)

theorem generated_identifier_in_range_witness:
  "random_value draw_zero
   \<and> (\<exists>i. componentId (objs (snd (initComponent Original 0 None draw_zero (page True))) 0)
             = Some i
          \<and> 1000 \<le> i \<and> i \<le> 9999)"
  using generated_identifier_in_range[OF random_value_draw_zero, of Original None 0 "page True"]
    random_value_draw_zero
  by simp

section \<open>A content fetch that is not ok\<close>

text \<open>
  Every failure of the chain ends in the promise that the code drops. A fetch that fails
  and a body that does not parse leave the state as it was but for the rejection that no
  handler takes.
\<close>

lemma failed_fetch_other_failures:
  "loadContent b Failed st = (Rejected TypeError, st\<lparr>unhandled := unhandled st @ [TypeError]\<rparr>)"
  "loadContent b (Response True None) st
     = (Rejected SyntaxError, st\<lparr>unhandled := unhandled st @ [SyntaxError]\<rparr>)"
  by (simp_all add: loadContent_def promise_then_def fetch_def on_response_def ok_def json_def
      on_data_def dropped_def)




section \<open>What a broadcast leaves alone\<close>

lemmas handler_defs =
  listen_def uiComponent_listen_def navComponent_listen_def loginComponent_listen_def
  bannerComponent_listen_def greeting_def showLogoutLink_def hideLogoutLink_def logout_def
  classList_add_def classList_remove_def set_textContent_def update_element_def
  add_token_def remove_token_def

lemmas broadcast_defs =
  broadcast_def notify_def object_keys_def array_index_def

lemmas loaded_defs = loaded_def run_defs random_id_draws

text \<open>A handler changes neither the registry nor a component; its call is recorded.\<close>

lemma listen_frame:
  assumes "listen c d st = (out, st')"
  shows "objs st' = objs st \<and> components st' = components st
         \<and> listen_calls st' = listen_calls st @ [(c, d)]"
  using assms
  by (auto simp: listen_def Let_def uiComponent_listen_def navComponent_listen_def
        loginComponent_listen_def bannerComponent_listen_def showLogoutLink_def logout_def
        seq_def classList_add_def classList_remove_def set_textContent_def update_element_def
      split: role.splits option.splits if_splits prod.splits outcome.splits)

lemma broadcast_loop_calls:
  assumes "broadcast_loop sid d ks st = (out, st')"
  shows "objs st' = objs st \<and> components st' = components st
         \<and> (\<exists>cs. listen_calls st' = listen_calls st @ map (\<lambda>c. (c, d)) cs
                \<and> (\<forall>c\<in>set cs. componentId (objs st c) \<noteq> sid
                      \<and> (\<exists>k\<in>set ks. lookup (components st) k = Some (Obj c))))"
  using assms
proof (induction ks arbitrary: st)
  case Nil
  then show ?case by simp
next
  case (Cons k ks)
  show ?case
  proof (cases "lookup (components st) k")
    case None
    with Cons.prems show ?thesis by simp
  next
    case (Some s)
    show ?thesis
    proof (cases s)
      case Undefined
      with Some Cons.prems show ?thesis by simp
    next
      case (Obj c)
      show ?thesis
      proof (cases "sid = componentId (objs st c)")
        case True
        with Some Obj Cons.prems have "broadcast_loop sid d ks st = (out, st')" by simp
        from Cons.IH[OF this] show ?thesis by auto
      next
        case False
        obtain o1 st1 where l: "listen c d st = (o1, st1)" by (cases "listen c d st")
        note f = listen_frame[OF l]
        show ?thesis
        proof (cases o1)
          case Returned
          with Some Obj False l Cons.prems have "broadcast_loop sid d ks st1 = (out, st')" by simp
          from Cons.IH[OF this] obtain cs where
            cs: "objs st' = objs st1" "components st' = components st1"
              "listen_calls st' = listen_calls st1 @ map (\<lambda>c. (c, d)) cs"
              "\<forall>c\<in>set cs. componentId (objs st1 c) \<noteq> sid
                      \<and> (\<exists>k\<in>set ks. lookup (components st1) k = Some (Obj c))"
            by blast
          have "listen_calls st' = listen_calls st @ map (\<lambda>c. (c, d)) (c # cs)"
            using cs(3) f by simp
          moreover have "\<forall>x\<in>set (c # cs). componentId (objs st x) \<noteq> sid
                      \<and> (\<exists>k'\<in>set (k # ks). lookup (components st) k' = Some (Obj x))"
            using cs(4) f False Some Obj by auto
          moreover have "objs st' = objs st" "components st' = components st"
            using cs(1,2) f by simp_all
          ultimately show ?thesis
            by - (intro conjI exI[of _ "c # cs"], assumption+)
        next
          case (Threw e)
          with Some Obj False l Cons.prems have "st' = st1" by simp
          then have "listen_calls st' = listen_calls st @ map (\<lambda>c. (c, d)) [c]"
            using f by simp
          moreover have "\<forall>x\<in>set [c]. componentId (objs st x) \<noteq> sid
                      \<and> (\<exists>k'\<in>set (k # ks). lookup (components st) k' = Some (Obj x))"
            using False Some Obj by auto
          moreover have "objs st' = objs st" "components st' = components st"
            using f \<open>st' = st1\<close> by simp_all
          ultimately show ?thesis
            by - (intro conjI exI[of _ "[c]"], assumption+)
        qed
      qed
    qed
  qed
qed

section \<open>The sender is never notified\<close>

text \<open>
  C1. Whatever the registry and the components are, and however the broadcast ends, every
  call of \<^verbatim>\<open>listen\<close> it makes passes the payload to a component that a property of the
  registry holds and whose identifier differs from the sender's. The components keep
  their identifiers during the broadcast.
\<close>

theorem broadcast_never_notifies_sender:
  assumes "broadcast sid d st = (out, st')"
  shows "listen_calls st' = listen_calls st @ notified st st'
         \<and> objs st' = objs st
         \<and> (\<forall>(c, p)\<in>set (notified st st').
               p = d \<and> componentId (objs st c) \<noteq> sid
               \<and> (\<exists>k. lookup (components st) k = Some (Obj c)))"
proof -
  from broadcast_loop_calls[OF assms[unfolded broadcast_def]] obtain cs where
    o: "objs st' = objs st"
    and cs: "listen_calls st' = listen_calls st @ map (\<lambda>c. (c, d)) cs"
      "\<forall>c\<in>set cs. componentId (objs st c) \<noteq> sid
          \<and> (\<exists>k\<in>set (rev (object_keys (components st))).
                lookup (components st) k = Some (Obj c))"
    by blast
  have n: "notified st st' = map (\<lambda>c. (c, d)) cs"
    by (simp add: notified_def cs(1))
  show ?thesis
    unfolding n using o cs by auto
qed

text \<open>
  On the loaded sample page a broadcast from the login box, whose identifier is 3250,
  notifies the banner and the navigation, and not the login box.
\<close>

theorem broadcast_never_notifies_sender_witness:
  "componentId (objs (loaded Hardened True) 1) = Some 3250
   \<and> lookup (components (loaded Hardened True)) (Some 3250) = Some (Obj 1)
   \<and> notified (loaded Hardened True)
        (snd (broadcast (Some 3250) logout_payload (loaded Hardened True)))
       = [(2, logout_payload), (0, logout_payload)]
   \<and> componentId (objs (loaded Hardened True) 2) \<noteq> Some 3250
   \<and> componentId (objs (loaded Hardened True) 0) \<noteq> Some 3250"
proof -
  let ?st = "loaded Hardened True"
  let ?st' = "snd (broadcast (Some 3250) logout_payload ?st)"
  have n: "notified ?st ?st' = [(2, logout_payload), (0, logout_payload)]"
    by (simp add: notified_def loaded_defs broadcast_defs handler_defs logout_payload_def)
  have s: "componentId (objs ?st 1) = Some 3250"
    "lookup (components ?st) (Some 3250) = Some (Obj 1)"
    by (simp_all add: loaded_defs)
  have "broadcast (Some 3250) logout_payload ?st
          = (fst (broadcast (Some 3250) logout_payload ?st), ?st')"
    by simp
  from broadcast_never_notifies_sender[OF this]
  have "\<forall>(c, p)\<in>set (notified ?st ?st').
          p = logout_payload \<and> componentId (objs ?st c) \<noteq> Some 3250
          \<and> (\<exists>k. lookup (components ?st) k = Some (Obj c))"
    by simp
  then have "componentId (objs ?st 2) \<noteq> Some 3250" "componentId (objs ?st 0) \<noteq> Some 3250"
    unfolding n by simp_all
  with n s show ?thesis by simp
qed

section \<open>Broadcasting after an unsubscription\<close>

text \<open>
  C2. On the sample page loaded by the original script the navigation component,
  object 0 with identifier 1000, is unsubscribed: its property stays in the registry and
  holds \<^verbatim>\<open>undefined\<close>.
  The next broadcast, here from the login box, throws a \<^verbatim>\<open>TypeError\<close> when it comes
  to that property.
\<close>

theorem broadcast_after_unsubscribe_throws:
  "lookup (components (unsubscribe 0 (loaded Original True))) (Some 1000) = Some Undefined
   \<and> fst (broadcast (Some 3250) logout_payload (unsubscribe 0 (loaded Original True)))
       = Threw TypeError"
  by (simp add: loaded_defs unsubscribe_def broadcast_defs handler_defs logout_payload_def)

section \<open>The payload of a login\<close>

text \<open>
  In the hardened version, when the login box is bound to a welcome region and to a form
  that are two elements and the broadcast returns, a submit with the name \<open>u\<close> typed
  passes \<open>u\<close> and \<^verbatim>\<open>loggedIn: true\<close> to every component it notifies, shows the welcome
  region with the text \<^verbatim>\<open>Welcome\<close> and \<open>u\<close>, and hides the form.
\<close>

lemma hardened_login_effects:
  assumes field: "elem (objs st lg) = Some a" "query st a ''#username'' = Some f"
      "input_value (elements st f) = u" "u \<noteq> []"
    and notifier: "componentNotifier (objs st lg) = Some UiSubscriber"
    and box: "welcomeElem (objs st lg) = Some w" "formElem (objs st lg) = Some fm" "w \<noteq> fm"
    and completes: "fst (broadcast (componentId (objs st lg)) (login_payload Hardened u) st)
                      = Returned"
    and run: "login Hardened lg st = (out, st')"
  shows "out = Returned
         \<and> (\<forall>(c, p)\<in>set (notified st st'). username p = Some u \<and> loggedIn p)
         \<and> textContent (elements st' w) = ''Welcome '' @ u
         \<and> \<not> hidden st' w \<and> hidden st' fm"
proof -
  let ?sid = "componentId (objs st lg)" and ?p = "login_payload Hardened u"
  obtain st1 where b: "broadcast ?sid ?p st = (Returned, st1)"
    using completes by (cases "broadcast ?sid ?p st") simp
  from broadcast_loop_calls[OF b[unfolded broadcast_def]] obtain cs where
    f: "objs st1 = objs st" "listen_calls st1 = listen_calls st @ map (\<lambda>c. (c, ?p)) cs"
    by blast
  have "login Hardened lg st =
          (Returned,
           update_element fm (\<lambda>x. x\<lparr>classList := add_token ''d-none'' (classList x)\<rparr>)
          (update_element w (\<lambda>x. x\<lparr>textContent := ''Welcome '' @ u\<rparr>)
          (update_element w (\<lambda>x. x\<lparr>classList := remove_token ''d-none'' (classList x)\<rparr>)
             st1)))"
    using field notifier box b f(1)
    by (simp add: login_def Let_def notify_def seq_def classList_remove_def
        set_textContent_def classList_add_def update_element_def)
  with run have out: "out = Returned"
    and st': "st' = update_element fm (\<lambda>x. x\<lparr>classList := add_token ''d-none'' (classList x)\<rparr>)
          (update_element w (\<lambda>x. x\<lparr>textContent := ''Welcome '' @ u\<rparr>)
          (update_element w (\<lambda>x. x\<lparr>classList := remove_token ''d-none'' (classList x)\<rparr>)
             st1))"
    by simp_all
  have n: "notified st st' = map (\<lambda>c. (c, ?p)) cs"
    by (simp add: st' notified_def update_element_def f(2))
  have "\<forall>(c, p)\<in>set (notified st st'). username p = Some u \<and> loggedIn p"
    unfolding n by (simp add: login_payload_def)
  moreover have "textContent (elements st' w) = ''Welcome '' @ u" "\<not> hidden st' w" "hidden st' fm"
    using box(3)
    by (simp_all add: st' update_element_def hidden_def add_token_def remove_token_def)
  ultimately show ?thesis using out by simp
qed

text \<open>
  C3. In the original version, on the loaded sample page where the user typed
  \<^verbatim>\<open>Ann\<close>, the login component notifies the banner and the navigation with the name
  \<^verbatim>\<open>Zakir\<close>.
\<close>

theorem original_login_sends_fixed_name:
  "input_value (elements (loaded Original True) 5) = ''Ann''
   \<and> fst (login Original 1 (loaded Original True)) = Returned
   \<and> notified (loaded Original True) (snd (login Original 1 (loaded Original True)))
       = [(2, \<lparr>username = Some ''Zakir'', loggedIn = True, loggingOut = False\<rparr>),
          (0, \<lparr>username = Some ''Zakir'', loggedIn = True, loggingOut = False\<rparr>)]"
  by (simp add: notified_def loaded_defs login_def login_payload_def broadcast_defs
      handler_defs blank_def)

section \<open>Initialising without an anchor\<close>

text \<open>
  C5. In the hardened version \<^verbatim>\<open>init\<close> with a null anchor, on a component of any role
  and in any state, calls \<^verbatim>\<open>Rollbar.error\<close> once and leaves the registry and the
  component's identifier, anchor and notifier as they were. For a component that has no
  anchor yet, as the factory makes it, nothing else changes either, and the \<^verbatim>\<open>init\<close> of
  the navigation, the login box and the banner ends by the \<^verbatim>\<open>TypeError\<close> of
  \<^verbatim>\<open>this.elem.querySelector\<close>.
\<close>

theorem init_without_anchor_reports_and_skips_registration:
  assumes "init Hardened c None rnd st = (out, st')"
  shows "rollbar st' = rollbar st @ [(''Error uiComponents.initComponent: '', None)]
         \<and> components st' = components st
         \<and> componentId (objs st' c) = componentId (objs st c)
         \<and> elem (objs st' c) = elem (objs st c)
         \<and> componentNotifier (objs st' c) = componentNotifier (objs st c)
         \<and> (elem (objs st c) = None \<longrightarrow>
              st' = st\<lparr>rollbar := rollbar st @ [(''Error uiComponents.initComponent: '', None)]\<rparr>
              \<and> (role (objs st c) \<noteq> Base \<longrightarrow> out = Threw TypeError))"
  using assms
  by (auto simp: init_def uiComponent_init_def navComponent_init_def loginComponent_init_def
        bannerComponent_init_def initComponent_def bind_query_def addEventListener_def
        update_component_def seq_def skip_def
      split: role.splits option.splits if_splits prod.splits outcome.splits variant.splits)

theorem init_without_anchor_reports_and_skips_registration_witness:
  "elem (objs fresh_nav 0) = None \<and> role (objs fresh_nav 0) = Nav
   \<and> fst (init Hardened 0 None draw_zero fresh_nav) = Threw TypeError
   \<and> snd (init Hardened 0 None draw_zero fresh_nav)
       = fresh_nav\<lparr>rollbar := [(''Error uiComponents.initComponent: '', None)]\<rparr>
   \<and> components (snd (init Hardened 0 None draw_zero fresh_nav)) = []"
proof -
  have e: "elem (objs fresh_nav 0) = None" "role (objs fresh_nav 0) = Nav"
    "rollbar fresh_nav = []" "components fresh_nav = []"
    by (simp_all add: fresh_nav_def page_def prototype_def)
  from init_without_anchor_reports_and_skips_registration[of 0 draw_zero fresh_nav
      "fst (init Hardened 0 None draw_zero fresh_nav)"
      "snd (init Hardened 0 None draw_zero fresh_nav)"] e
  show ?thesis by simp
qed

section \<open>A content fetch that is ok\<close>

text \<open>
  C8. When the banner is bound to a headline element and to a content element that is
  another element, an ok response with the fields \<open>h\<close> and \<open>c\<close> makes the headline's
  text \<open>h\<close> and the content's text \<open>c\<close>, and the promise is fulfilled.
\<close>

theorem loadContent_ok_sets_texts:
  assumes "headlineElem (objs st b) = Some hn" and "contentElem (objs st b) = Some cn"
    and "hn \<noteq> cn"
  shows "\<exists>st'. loadContent b (Response True (Some \<lparr>headline = h, content = c\<rparr>)) st
                 = (Fulfilled, st')
               \<and> textContent (elements st' hn) = h \<and> textContent (elements st' cn) = c"
  using assms
  by (simp add: loadContent_def promise_then_def fetch_def on_response_def ok_def json_def
      on_data_def dropped_def seq_def set_textContent_def update_element_def)

theorem loadContent_ok_sets_texts_witness:
  "headlineElem (objs (loaded Hardened True) 2) = Some 7
   \<and> contentElem (objs (loaded Hardened True) 2) = Some 8
   \<and> (\<exists>st'. loadContent 2 (Response True (Some \<lparr>headline = ''News'', content = ''Text''\<rparr>))
               (loaded Hardened True) = (Fulfilled, st')
            \<and> textContent (elements st' 7) = ''News'' \<and> textContent (elements st' 8) = ''Text'')"
proof -
  have h: "headlineElem (objs (loaded Hardened True) 2) = Some 7"
    and c: "contentElem (objs (loaded Hardened True) 2) = Some 8"
    by (simp_all add: loaded_defs)
  have n: "(7::nat) \<noteq> 8" by simp
  from loadContent_ok_sets_texts[OF h c n, of "''News''" "''Text''"] h c show ?thesis by simp
qed

section \<open>How far a broadcast gets\<close>

lemma broadcast_loop_append:
  "broadcast_loop sid d (xs @ ys) st =
     (case broadcast_loop sid d xs st of
        (Returned, st1) \<Rightarrow> broadcast_loop sid d ys st1
      | (Threw e, st1) \<Rightarrow> (Threw e, st1))"
proof (induction xs arbitrary: st)
  case Nil
  then show ?case by simp
next
  case (Cons k xs)
  show ?case
  proof (cases "lookup (components st) k")
    case None
    then show ?thesis by simp
  next
    case (Some s)
    show ?thesis
    proof (cases s)
      case Undefined
      with Some show ?thesis by simp
    next
      case (Obj c)
      show ?thesis
      proof (cases "componentId (objs st c) = sid")
        case True
        with Some Obj show ?thesis by (simp add: Cons.IH)
      next
        case False
        obtain o1 st1 where l: "listen c d st = (o1, st1)" by (cases "listen c d st")
        show ?thesis
        proof (cases o1)
          case Returned
          with Some Obj False l show ?thesis by (simp add: Cons.IH)
        next
          case (Threw e)
          with Some Obj False l show ?thesis by simp
        qed
      qed
    qed
  qed
qed

text \<open>A handler that is not told of a logout hides nothing.\<close>

lemma listen_keeps_revealed:
  assumes "listen c d st = (out, st')" and "\<not> loggingOut d" and "\<not> hidden st n"
  shows "\<not> hidden st' n"
  using assms
  by (auto simp: hidden_def listen_def Let_def uiComponent_listen_def navComponent_listen_def
        loginComponent_listen_def bannerComponent_listen_def showLogoutLink_def
        classList_remove_def set_textContent_def update_element_def remove_token_def
      split: role.splits option.splits if_splits)

lemma broadcast_loop_keeps_revealed:
  assumes "broadcast_loop sid d ks st = (out, st')" and "\<not> loggingOut d" and "\<not> hidden st n"
  shows "\<not> hidden st' n"
  using assms
proof (induction ks arbitrary: st)
  case Nil
  then show ?case by simp
next
  case (Cons k ks)
  show ?case
  proof (cases "lookup (components st) k")
    case None
    with Cons.prems show ?thesis by simp
  next
    case (Some s)
    show ?thesis
    proof (cases s)
      case Undefined
      with Some Cons.prems show ?thesis by simp
    next
      case (Obj c)
      show ?thesis
      proof (cases "sid = componentId (objs st c)")
        case True
        with Some Obj Cons.prems have "broadcast_loop sid d ks st = (out, st')" by simp
        from Cons.IH[OF this Cons.prems(2,3)] show ?thesis .
      next
        case False
        obtain o1 st1 where l: "listen c d st = (o1, st1)" by (cases "listen c d st")
        note r = listen_keeps_revealed[OF l Cons.prems(2,3)]
        show ?thesis
        proof (cases o1)
          case Returned
          with Some Obj False l Cons.prems have "broadcast_loop sid d ks st1 = (out, st')" by simp
          from Cons.IH[OF this Cons.prems(2) r] show ?thesis .
        next
          case (Threw e)
          with Some Obj False l Cons.prems have "st' = st1" by simp
          with r show ?thesis by simp
        qed
      qed
    qed
  qed
qed

lemma set_object_keys: "set (object_keys r) = fst ` set r"
  by (auto simp: object_keys_def Let_def)

lemma lookup_in_keys:
  assumes "lookup (components st) k = Some s"
  shows "k \<in> set (rev (object_keys (components st)))"
  using assms by (auto simp: lookup_def set_object_keys dest: map_of_SomeD intro: rev_image_eqI)

lemma keys_split:
  assumes "lookup (components st) k = Some s"
  shows "\<exists>rest. rev (object_keys (components st)) = visited_before k st @ k # rest"
proof -
  let ?ks = "rev (object_keys (components st))"
  have "k \<in> set ?ks" using assms by (rule lookup_in_keys)
  then have "dropWhile (\<lambda>k'. k' \<noteq> k) ?ks \<noteq> []" by (simp add: dropWhile_eq_Nil_conv)
  then obtain y rest where d: "dropWhile (\<lambda>k'. k' \<noteq> k) ?ks = y # rest"
    by (cases "dropWhile (\<lambda>k'. k' \<noteq> k) ?ks") auto
  then have "\<not> (y \<noteq> k)" by (rule dropWhile_eq_Cons_conv[THEN iffD1, THEN conjunct2])
  then have "y = k" by simp
  have "?ks = takeWhile (\<lambda>k'. k' \<noteq> k) ?ks @ dropWhile (\<lambda>k'. k' \<noteq> k) ?ks" by simp
  with d \<open>y = k\<close> show ?thesis by (auto simp: visited_before_def)
qed

text \<open>What the navigation's handler does when told of a login.\<close>

lemma nav_listen_reveals:
  assumes "role (objs st nv) = Nav" and "loginLinkElem (objs st nv) = Some l" and "loggedIn d"
  shows "\<exists>st'. listen nv d st = (Returned, st') \<and> \<not> hidden st' l"
  using assms
  by (simp add: listen_def Let_def navComponent_listen_def showLogoutLink_def
      classList_remove_def update_element_def remove_token_def hidden_def)

text \<open>The statements of \<^verbatim>\<open>login\<close> that follow the broadcast.\<close>

lemma login_tail:
  assumes "seq (\<lambda>s. classList_remove (welcomeElem (objs s c)) ''d-none'' s)
          (seq (\<lambda>s. set_textContent (welcomeElem (objs s c)) t s)
               (\<lambda>s. classList_add (formElem (objs s c)) ''d-none'' s)) st = (out, st')"
  shows "listen_calls st' = listen_calls st
         \<and> (\<forall>n. formElem (objs st c) \<noteq> Some n \<longrightarrow> \<not> hidden st n \<longrightarrow> \<not> hidden st' n)"
  using assms
  by (auto simp: seq_def classList_remove_def set_textContent_def classList_add_def
        update_element_def hidden_def remove_token_def add_token_def
      split: option.splits if_splits)

lemma listen_elements_frame:
  assumes "listen c d st = (out, st')" and "n \<notin> writes (objs st c) d"
  shows "elements st' n = elements st n"
  using assms
  by (auto simp: writes_def listen_def Let_def uiComponent_listen_def navComponent_listen_def
        loginComponent_listen_def bannerComponent_listen_def showLogoutLink_def logout_def
        seq_def classList_add_def classList_remove_def set_textContent_def update_element_def
      split: role.splits option.splits if_splits prod.splits outcome.splits)

text \<open>What the login box's handler does when told of a logout.\<close>

lemma login_listen_restores:
  assumes "role (objs st lg) = Login" and "formElem (objs st lg) = Some fm"
    and "welcomeElem (objs st lg) = Some w" and "fm \<noteq> w" and "loggingOut d"
  shows "\<exists>st'. listen lg d st = (Returned, st') \<and> restored st' fm w"
  using assms
  by (simp add: listen_def Let_def loginComponent_listen_def logout_def seq_def
      classList_add_def classList_remove_def set_textContent_def update_element_def
      add_token_def remove_token_def hidden_def restored_def)

lemma notified_trans:
  assumes "listen_calls s1 = listen_calls s @ xs" and "listen_calls s' = listen_calls s1 @ ys"
  shows "notified s s' = xs @ notified s1 s'"
  using assms by (simp add: notified_def)

lemma broadcast_loop_grows:
  assumes "broadcast_loop sid d ks st = (out, st')"
  shows "listen_calls st' = listen_calls st @ notified st st'"
proof -
  from broadcast_loop_calls[OF assms] obtain cs where
    "listen_calls st' = listen_calls st @ map (\<lambda>c. (c, d)) cs" by blast
  then show ?thesis by (simp add: notified_def)
qed

text \<open>A broadcast that returns has notified every registered component but the sender.\<close>

lemma broadcast_loop_delivers:
  assumes "broadcast_loop sid d ks st = (Returned, st')" and "k \<in> set ks"
    and "lookup (components st) k = Some (Obj c)" and "componentId (objs st c) \<noteq> sid"
  shows "(c, d) \<in> set (notified st st')"
  using assms
proof (induction ks arbitrary: st)
  case Nil
  then show ?case by simp
next
  case (Cons k' ks)
  show ?case
  proof (cases "lookup (components st) k'")
    case None
    with Cons.prems show ?thesis by simp
  next
    case (Some s)
    show ?thesis
    proof (cases s)
      case Undefined
      with Some Cons.prems show ?thesis by simp
    next
      case (Obj c')
      show ?thesis
      proof (cases "componentId (objs st c') = sid")
        case True
        with Some Obj Cons.prems have b: "broadcast_loop sid d ks st = (Returned, st')" by simp
        from True Some Obj Cons.prems have "k' \<noteq> k" by auto
        with Cons.prems have "k \<in> set ks" by simp
        from Cons.IH[OF b this Cons.prems(3,4)] show ?thesis .
      next
        case False
        obtain o1 st1 where l: "listen c' d st = (o1, st1)" by (cases "listen c' d st")
        note f = listen_frame[OF l]
        from Some Obj False l Cons.prems have o1: "o1 = Returned"
          by (cases o1) auto
        with Some Obj False l Cons.prems have b: "broadcast_loop sid d ks st1 = (Returned, st')"
          by auto
        have n: "notified st st' = [(c', d)] @ notified st1 st'"
          using f broadcast_loop_grows[OF b] by (intro notified_trans) auto
        show ?thesis
        proof (cases "k' = k")
          case True
          with Some Obj Cons.prems have "c' = c" by simp
          with n show ?thesis by simp
        next
          case False
          with Cons.prems have "k \<in> set ks" by simp
          from Cons.IH[OF b this] Cons.prems(3,4) f have "(c, d) \<in> set (notified st1 st')"
            by simp
          with n show ?thesis by simp
        qed
      qed
    qed
  qed
qed

lemma broadcast_delivers_when_it_returns:
  assumes "broadcast sid d st = (Returned, st')"
    and "lookup (components st) k = Some (Obj c)" and "componentId (objs st c) \<noteq> sid"
  shows "(c, d) \<in> set (notified st st')"
  using assms(1)[unfolded broadcast_def] lookup_in_keys[OF assms(2)] assms(2,3)
  by (rule broadcast_loop_delivers)

lemma broadcast_loop_restores:
  assumes "broadcast_loop sid d ks st = (Returned, st')" and "loggingOut d"
    and "role (objs st lg) = Login" and "formElem (objs st lg) = Some fm"
    and "welcomeElem (objs st lg) = Some w" and "fm \<noteq> w"
    and "componentId (objs st lg) \<noteq> sid"
    and "\<forall>k' c. lookup (components st) k' = Some (Obj c) \<longrightarrow> c \<noteq> lg \<longrightarrow>
           fm \<notin> writes (objs st c) d \<and> w \<notin> writes (objs st c) d"
    and "restored st fm w \<or> (k \<in> set ks \<and> lookup (components st) k = Some (Obj lg))"
  shows "restored st' fm w"
  using assms
proof (induction ks arbitrary: st)
  case Nil
  then show ?case by simp
next
  case (Cons k' ks)
  show ?case
  proof (cases "lookup (components st) k'")
    case None
    with Cons.prems show ?thesis by simp
  next
    case (Some s)
    show ?thesis
    proof (cases s)
      case Undefined
      with Some Cons.prems show ?thesis by simp
    next
      case (Obj c)
      show ?thesis
      proof (cases "componentId (objs st c) = sid")
        case True
        with Some Obj Cons.prems(1) have b: "broadcast_loop sid d ks st = (Returned, st')"
          by simp
        from True Cons.prems(7) have "c \<noteq> lg" by auto
        with Some Obj have "\<not> (k' = k \<and> lookup (components st) k = Some (Obj lg))" by auto
        with Cons.prems(9)
        have "restored st fm w \<or> (k \<in> set ks \<and> lookup (components st) k = Some (Obj lg))"
          by auto
        from Cons.IH[OF b Cons.prems(2-8) this] show ?thesis .
      next
        case False
        obtain o1 st1 where l: "listen c d st = (o1, st1)" by (cases "listen c d st")
        note f = listen_frame[OF l]
        from Some Obj False l Cons.prems(1) have o1: "o1 = Returned"
          by (cases o1) auto
        with Some Obj False l Cons.prems(1)
        have b: "broadcast_loop sid d ks st1 = (Returned, st')" by auto
        have r: "restored st1 fm w \<or> (k \<in> set ks \<and> lookup (components st1) k = Some (Obj lg))"
        proof (cases "c = lg")
          case True
          from login_listen_restores[OF Cons.prems(3-6,2), of ] l True o1
          show ?thesis by auto
        next
          case False
          with Some Obj Cons.prems(8)
          have "fm \<notin> writes (objs st c) d" "w \<notin> writes (objs st c) d" by auto
          then have e: "elements st1 fm = elements st fm" "elements st1 w = elements st w"
            using l by (auto intro: listen_elements_frame)
          from False Some Obj have "\<not> (k' = k \<and> lookup (components st) k = Some (Obj lg))"
            by auto
          with Cons.prems(9) e f show ?thesis by (auto simp: restored_def hidden_def)
        qed
        have "restored st' fm w"
          using b Cons.prems(2) _ _ _ Cons.prems(6) _ _ r
        proof (rule Cons.IH)
          show "role (objs st1 lg) = Login" "formElem (objs st1 lg) = Some fm"
            "welcomeElem (objs st1 lg) = Some w" "componentId (objs st1 lg) \<noteq> sid"
            using Cons.prems f by simp_all
          show "\<forall>k' c. lookup (components st1) k' = Some (Obj c) \<longrightarrow> c \<noteq> lg \<longrightarrow>
                  fm \<notin> writes (objs st1 c) d \<and> w \<notin> writes (objs st1 c) d"
            using Cons.prems(8) f by simp
        qed
        then show ?thesis .
      qed
    qed
  qed
qed

lemmas click_defs = logout_click_def login_def login_payload_def logout_payload_def


lemmas sample_defs =
  loaded_defs click_defs broadcast_defs handler_defs blank_def notified_def hidden_def
  restored_def visited_before_def logged_in_def low_banner_def low_banner_submitted_def

section \<open>From the login form to the navigation\<close>

text \<open>
  C6, as the specification states it, fails on the page whose banner has no headline,
  in either version; the original one is run here. Its script binds the banner's
  headline to \<^verbatim>\<open>null\<close>, the navigation (object 0,
  identifier 1000) and the login box (object 1, identifier 3250) are registered, and the
  banner has the highest identifier, 5500. A submit of the form with the name \<^verbatim>\<open>Ann\<close>
  notifies the banner first; its handler throws, the broadcast and \<^verbatim>\<open>login\<close> end by
  that \<^verbatim>\<open>TypeError\<close>, the navigation is never notified and its logout link stays hidden.
\<close>

theorem submit_reveals_logout_link_counterexample:
  "lookup (components (loaded Original False)) (Some 1000) = Some (Obj 0)
   \<and> role (objs (loaded Original False) 0) = Nav
   \<and> componentId (objs (loaded Original False) 0) = Some 1000
   \<and> loginLinkElem (objs (loaded Original False) 0) = Some 1
   \<and> lookup (components (loaded Original False)) (Some 3250) = Some (Obj 1)
   \<and> role (objs (loaded Original False) 1) = Login
   \<and> componentId (objs (loaded Original False) 1) = Some 3250
   \<and> elem (objs (loaded Original False) 1) = Some 2
   \<and> query (loaded Original False) 2 ''#username'' = Some 5
   \<and> input_value (elements (loaded Original False) 5) = ''Ann''
   \<and> fst (login Original 1 (loaded Original False)) = Threw TypeError
   \<and> notified (loaded Original False) (snd (login Original 1 (loaded Original False)))
       = [(2, login_payload Original ''Ann'')]
   \<and> hidden (snd (login Original 1 (loaded Original False))) 1"
  by (simp add: sample_defs)

text \<open>
  C6, amended. Let the login component have its anchor, a username field holding a
  name that is not empty, and its notifier. Let a property of the registry hold a
  navigation component whose identifier is not the login component's and which is bound
  to its logout link, let the login form be another element than that link, and let the
  broadcast get as far as the navigation component's key: every key visited before it
  holds a component whose handler returns. Then the submit calls the navigation
  component's \<^verbatim>\<open>listen\<close> with the login payload, in which \<^verbatim>\<open>loggedIn\<close> is true, and
  however \<^verbatim>\<open>login\<close> ends, the logout link is without the class \<^verbatim>\<open>d-none\<close> afterwards.
\<close>

theorem submit_reveals_logout_link:
  assumes field: "elem (objs st lg) = Some a" "query st a ''#username'' = Some f"
      "input_value (elements st f) = u" "u \<noteq> []"
    and notifier: "componentNotifier (objs st lg) = Some UiSubscriber"
    and nav: "lookup (components st) k = Some (Obj nv)" "role (objs st nv) = Nav"
      "componentId (objs st nv) \<noteq> componentId (objs st lg)"
      "loginLinkElem (objs st nv) = Some l"
    and reach: "fst (broadcast_loop (componentId (objs st lg)) (login_payload v u)
                   (visited_before k st) st) = Returned"
    and apart: "formElem (objs st lg) \<noteq> Some l"
    and run: "login v lg st = (out, st')"
  shows "(nv, login_payload v u) \<in> set (notified st st')
         \<and> loggedIn (login_payload v u) \<and> \<not> hidden st' l"
proof -
  let ?sid = "componentId (objs st lg)" and ?p = "login_payload v u"
  let ?tail = "seq (\<lambda>s. classList_remove (welcomeElem (objs s lg)) ''d-none'' s)
              (seq (\<lambda>s. set_textContent (welcomeElem (objs s lg)) (''Welcome '' @ u) s)
                   (\<lambda>s. classList_add (formElem (objs s lg)) ''d-none'' s))"
  have p: "loggedIn ?p" "\<not> loggingOut ?p" by (simp_all add: login_payload_def)
  obtain rest where ks: "rev (object_keys (components st)) = visited_before k st @ k # rest"
    using keys_split[OF nav(1)] by blast
  obtain st1 where b1: "broadcast_loop ?sid ?p (visited_before k st) st = (Returned, st1)"
    using reach by (cases "broadcast_loop ?sid ?p (visited_before k st) st") simp
  from broadcast_loop_calls[OF b1] obtain cs1 where
    f1: "objs st1 = objs st" "components st1 = components st"
      "listen_calls st1 = listen_calls st @ map (\<lambda>c. (c, ?p)) cs1"
    by blast
  obtain st2 where l2: "listen nv ?p st1 = (Returned, st2)" and r2: "\<not> hidden st2 l"
    using nav_listen_reveals[of st1 nv l ?p] f1 nav p by auto
  note f2 = listen_frame[OF l2]
  obtain o3 st3 where b3: "broadcast_loop ?sid ?p rest st2 = (o3, st3)"
    by (cases "broadcast_loop ?sid ?p rest st2")
  from broadcast_loop_calls[OF b3] obtain cs3 where
    f3: "objs st3 = objs st2" "components st3 = components st2"
      "listen_calls st3 = listen_calls st2 @ map (\<lambda>c. (c, ?p)) cs3"
    by blast
  have r3: "\<not> hidden st3 l" using b3 p(2) r2 by (rule broadcast_loop_keeps_revealed)
  have "broadcast_loop ?sid ?p (k # rest) st1 = (o3, st3)"
    using nav f1 l2 b3 by simp
  then have bc: "broadcast ?sid ?p st = (o3, st3)"
    unfolding broadcast_def ks broadcast_loop_append b1 by simp
  have calls3: "listen_calls st3
      = listen_calls st @ map (\<lambda>c. (c, ?p)) cs1 @ (nv, ?p) # map (\<lambda>c. (c, ?p)) cs3"
    using f1 f2 f3 by simp
  have lg: "login v lg st = (case o3 of Returned \<Rightarrow> ?tail st3 | Threw e \<Rightarrow> (Threw e, st3))"
    using field notifier bc
    by (simp add: login_def Let_def notify_def seq_def[of "notify lg ?p"] split: outcome.splits)
  have fin: "listen_calls st' = listen_calls st3 \<and> \<not> hidden st' l"
  proof (cases o3)
    case Returned
    with lg run have t: "?tail st3 = (out, st')" by simp
    have "formElem (objs st3 lg) \<noteq> Some l" using apart f1 f2 f3 by simp
    with login_tail[OF t] r3 show ?thesis by blast
  next
    case (Threw e)
    with lg run have "st' = st3" by simp
    with r3 show ?thesis by simp
  qed
  have "notified st st' = map (\<lambda>c. (c, ?p)) cs1 @ (nv, ?p) # map (\<lambda>c. (c, ?p)) cs3"
    using fin calls3 by (simp add: notified_def)
  then show ?thesis using p(1) fin by simp
qed

theorem submit_reveals_logout_link_witness:
  "elem (objs (loaded Hardened True) 1) = Some 2
   \<and> query (loaded Hardened True) 2 ''#username'' = Some 5
   \<and> input_value (elements (loaded Hardened True) 5) = ''Ann''
   \<and> lookup (components (loaded Hardened True)) (Some 1000) = Some (Obj 0)
   \<and> visited_before (Some 1000) (loaded Hardened True) = [Some 5500, Some 3250]
   \<and> hidden (loaded Hardened True) 1
   \<and> (0, login_payload Hardened ''Ann'')
        \<in> set (notified (loaded Hardened True) (snd (login Hardened 1 (loaded Hardened True))))
   \<and> loggedIn (login_payload Hardened ''Ann'')
   \<and> \<not> hidden (snd (login Hardened 1 (loaded Hardened True))) 1"
proof -
  let ?st = "loaded Hardened True"
  have field: "elem (objs ?st 1) = Some 2" "query ?st 2 ''#username'' = Some 5"
    "input_value (elements ?st 5) = ''Ann''" "''Ann'' \<noteq> []"
    and notifier: "componentNotifier (objs ?st 1) = Some UiSubscriber"
    and nav: "lookup (components ?st) (Some 1000) = Some (Obj 0)" "role (objs ?st 0) = Nav"
      "componentId (objs ?st 0) \<noteq> componentId (objs ?st 1)"
      "loginLinkElem (objs ?st 0) = Some 1"
    and apart: "formElem (objs ?st 1) \<noteq> Some 1"
    and before: "visited_before (Some 1000) ?st = [Some 5500, Some 3250]"
    and was: "hidden ?st 1"
    by (simp_all add: sample_defs)
  have reach: "fst (broadcast_loop (componentId (objs ?st 1)) (login_payload Hardened ''Ann'')
                   (visited_before (Some 1000) ?st) ?st) = Returned"
    by (simp add: sample_defs)
  have run: "login Hardened 1 ?st = (fst (login Hardened 1 ?st), snd (login Hardened 1 ?st))"
    by simp
  from submit_reveals_logout_link[OF field notifier nav reach apart run] field nav before was
  show ?thesis by simp
qed

section \<open>From the logout link to the login box\<close>

text \<open>
  C7, as the specification states it, fails on the page whose banner has no headline
  when the banner has the lowest identifier, in either version; the original one is run
  here. There a submit of the login form has
  revealed the logout link before the banner's handler threw. A click on the link
  notifies the login box and then the banner, whose handler throws again: the click
  ends by that \<^verbatim>\<open>TypeError\<close> before \<^verbatim>\<open>hideLogoutLink\<close>, and the link stays visible.
\<close>

theorem logout_click_restores_login_form_counterexample:
  "lookup (components low_banner_submitted) (Some 3250) = Some (Obj 0)
   \<and> role (objs low_banner_submitted 0) = Nav
   \<and> componentId (objs low_banner_submitted 0) = Some 3250
   \<and> loginLinkElem (objs low_banner_submitted 0) = Some 1
   \<and> lookup (components low_banner_submitted) (Some 5500) = Some (Obj 1)
   \<and> role (objs low_banner_submitted 1) = Login
   \<and> componentId (objs low_banner_submitted 1) = Some 5500
   \<and> \<not> hidden low_banner_submitted 1
   \<and> fst (logout_click 0 low_banner_submitted) = Threw TypeError
   \<and> \<not> hidden (snd (logout_click 0 low_banner_submitted)) 1"
  by (simp add: sample_defs)

text \<open>
  C7, amended. Let the navigation component have its notifier and its logout link. Let
  a property of the registry hold a login component whose identifier is not the
  navigation component's and which is bound to a form and to a welcome region that are
  two elements, the link being another element than the form; let no other registered
  component's handler write to the form or the welcome region when told of a logout; and
  let the broadcast return. Then the click returns, it has called the login component's
  \<^verbatim>\<open>listen\<close> with the payload in which \<^verbatim>\<open>loggingOut\<close> is true, the link is
  hidden, the form is not hidden, and the welcome region is hidden and empty.
\<close>

theorem logout_click_restores_login_form:
  assumes notifier: "componentNotifier (objs st nv) = Some UiSubscriber"
    and link: "loginLinkElem (objs st nv) = Some l"
    and box: "lookup (components st) k = Some (Obj lg)" "role (objs st lg) = Login"
      "componentId (objs st lg) \<noteq> componentId (objs st nv)"
      "formElem (objs st lg) = Some fm" "welcomeElem (objs st lg) = Some w"
    and apart: "fm \<noteq> w" "l \<noteq> fm"
      "\<forall>k' c. lookup (components st) k' = Some (Obj c) \<longrightarrow> c \<noteq> lg \<longrightarrow>
         fm \<notin> writes (objs st c) logout_payload \<and> w \<notin> writes (objs st c) logout_payload"
    and completes: "fst (broadcast (componentId (objs st nv)) logout_payload st) = Returned"
    and run: "logout_click nv st = (out, st')"
  shows "out = Returned \<and> (lg, logout_payload) \<in> set (notified st st')
         \<and> loggingOut logout_payload \<and> hidden st' l \<and> restored st' fm w"
proof -
  let ?sid = "componentId (objs st nv)" and ?ks = "rev (object_keys (components st))"
  have p: "loggingOut logout_payload" by (simp add: logout_payload_def)
  obtain st1 where b: "broadcast_loop ?sid logout_payload ?ks st = (Returned, st1)"
    using completes unfolding broadcast_def
    by (cases "broadcast_loop ?sid logout_payload ?ks st") simp
  have k: "k \<in> set ?ks" using box(1) by (rule lookup_in_keys)
  have d: "(lg, logout_payload) \<in> set (notified st st1)"
    using b k box(1,3) by (rule broadcast_loop_delivers)
  have r1: "restored st1 fm w"
    using b p box(2,4,5) apart(1) box(3) apart(3)
  proof (rule broadcast_loop_restores)
    show "restored st fm w \<or> (k \<in> set ?ks \<and> lookup (components st) k = Some (Obj lg))"
      using k box(1) by simp
  qed
  from broadcast_loop_calls[OF b] have f: "objs st1 = objs st" by simp
  have "logout_click nv st = hideLogoutLink nv st1"
    using notifier b by (simp add: logout_click_def seq_def notify_def broadcast_def)
  with run link f have st': "out = Returned"
    "st' = update_element l (\<lambda>x. x\<lparr>classList := add_token ''d-none'' (classList x)\<rparr>) st1"
    by (simp_all add: hideLogoutLink_def classList_add_def)
  have "hidden st' l"
    by (simp add: st' hidden_def update_element_def add_token_def)
  moreover have "restored st' fm w"
    using r1 apart(2)
    by (auto simp: st' restored_def hidden_def update_element_def add_token_def)
  moreover have "notified st st' = notified st st1"
    by (simp add: st' notified_def update_element_def)
  ultimately show ?thesis using st'(1) d p by simp
qed

theorem logout_click_restores_login_form_witness:
  "loginLinkElem (objs logged_in 0) = Some 1
   \<and> lookup (components logged_in) (Some 3250) = Some (Obj 1)
   \<and> formElem (objs logged_in 1) = Some 3 \<and> welcomeElem (objs logged_in 1) = Some 4
   \<and> hidden logged_in 3 \<and> \<not> hidden logged_in 4 \<and> \<not> hidden logged_in 1
   \<and> textContent (elements logged_in 4) = ''Welcome Ann''
   \<and> fst (logout_click 0 logged_in) = Returned
   \<and> (1, logout_payload) \<in> set (notified logged_in (snd (logout_click 0 logged_in)))
   \<and> loggingOut logout_payload
   \<and> hidden (snd (logout_click 0 logged_in)) 1
   \<and> restored (snd (logout_click 0 logged_in)) 3 4"
proof -
  have notifier: "componentNotifier (objs logged_in 0) = Some UiSubscriber"
    and link: "loginLinkElem (objs logged_in 0) = Some 1"
    and box: "lookup (components logged_in) (Some 3250) = Some (Obj 1)"
      "role (objs logged_in 1) = Login"
      "componentId (objs logged_in 1) \<noteq> componentId (objs logged_in 0)"
      "formElem (objs logged_in 1) = Some 3" "welcomeElem (objs logged_in 1) = Some 4"
    and was: "hidden logged_in 3" "\<not> hidden logged_in 4" "\<not> hidden logged_in 1"
      "textContent (elements logged_in 4) = ''Welcome Ann''"
    by (simp_all add: sample_defs)
  have apart: "(3::nat) \<noteq> 4" "(1::nat) \<noteq> 3" by simp_all
  have others: "\<forall>k' c. lookup (components logged_in) k' = Some (Obj c) \<longrightarrow> c \<noteq> 1 \<longrightarrow>
         3 \<notin> writes (objs logged_in c) logout_payload
         \<and> 4 \<notin> writes (objs logged_in c) logout_payload"
    by (auto simp: sample_defs writes_def split: if_splits)
  have completes: "fst (broadcast (componentId (objs logged_in 0)) logout_payload logged_in)
                     = Returned"
    by (simp add: sample_defs)
  have run: "logout_click 0 logged_in
               = (fst (logout_click 0 logged_in), snd (logout_click 0 logged_in))"
    by simp
  from logout_click_restores_login_form[OF notifier link box apart others completes run]
    link box was
  show ?thesis by simp
qed

end
